theory Spec2Isabelle
  imports Main "HOL-Library.Word"
begin

section \<open>Shared types of the view service (viewservice package)\<close>

text \<open>
  Go's \<^verbatim>\<open>uint64\<close> is a 64-bit word: \<open>+\<close> wraps around.  Wall-clock instants
  (\<^verbatim>\<open>time.Time\<close>) and durations are integers counting nanoseconds; the handlers read
  the clock through \<^verbatim>\<open>time.Now()\<close>, which the model receives as an argument.
\<close>

type_synonym uint64 = "64 word"
type_synonym time = int

record View =
  ViewNumber :: uint64
  Primary :: string
  Backup :: string

text \<open>\<^verbatim>\<open>PingArgs{ServerName, ViewNumber}\<close>; the second field is renamed because
  \<open>ViewNumber\<close> is the field of \<open>View\<close>.\<close>

record PingArgs =
  ServerName :: string
  PingViewNumber :: uint64

section \<open>The key-value server (kvserver package)\<close>

subsection \<open>RPC types and error constants\<close>

definition OK :: string where
  "OK = ''''"

definition ErrNoKey :: string where
  "ErrNoKey = ''ErrNoKey''"

definition ErrNotPrimary :: string where
  "ErrNotPrimary = ''ErrNotPrimary''"

text \<open>\<^verbatim>\<open>PutArgs{Key, Value}\<close>.  \<^verbatim>\<open>ForwardUpdateArgs\<close> has the same two fields and
  shares the record.\<close>

record PutArgs =
  Key :: string
  Value :: string

type_synonym ForwardUpdateArgs = PutArgs

text \<open>\<^verbatim>\<open>GetReply{Value, Err}\<close>.  \<^verbatim>\<open>PutReply\<close>, \<^verbatim>\<open>ForwardUpdateReply\<close> and
  \<^verbatim>\<open>SyncStateReply\<close> hold the single field \<^verbatim>\<open>Err\<close>; the handlers below return that
  string.\<close>

record GetReply =
  GetValue :: string
  GetErr :: string

record SyncStateArgs =
  Data :: "string \<rightharpoonup> string"
  SyncViewNumber :: uint64

subsection \<open>Server state\<close>

text \<open>
  The fields of \<^verbatim>\<open>KVServer\<close> that the handlers read and write under \<^verbatim>\<open>kv.mu\<close>.
  \<^verbatim>\<open>currentView\<close> is named \<open>kvView\<close> here (the view service has a field of the same
  name).  The listener, the death flag and the RPC client handle are plumbing and are
  left out.
\<close>

record KVServer =
  me :: string
  kvView :: View
  data :: "string \<rightharpoonup> string"
  role :: string
  lastBackup :: string
  syncing :: bool
  pendingQueue :: "PutArgs list"

definition kv_StartServer :: "string \<Rightarrow> KVServer" where
  "kv_StartServer serverName =
     \<lparr>me = serverName,
      kvView = \<lparr>ViewNumber = 0, Primary = '''', Backup = ''''\<rparr>,
      data = Map.empty,
      role = ''idle'',
      lastBackup = '''',
      syncing = False,
      pendingQueue = []\<rparr>"

subsection \<open>Outbound RPCs\<close>

text \<open>
  An outbound call is \<^verbatim>\<open>rpc.Dial\<close> followed by \<^verbatim>\<open>client.Call\<close>.  What the network
  answers is an input of the model; what the server sent is an output.
\<close>

datatype rpc_result = DialError | CallError | Replied string

datatype net_action =
    Dial string
  | Call_ForwardUpdate string ForwardUpdateArgs
  | Call_SyncState string SyncStateArgs

subsection \<open>Copying a Go map\<close>

text \<open>
  \<^verbatim>\<open>for k, v := range m { c[k] = v }\<close> into a fresh map \<open>c\<close>.  Go visits the keys
  in an unspecified order; \<open>ks\<close> is the order of this run.
\<close>

definition copy_map :: "string list \<Rightarrow> (string \<rightharpoonup> string) \<Rightarrow> (string \<rightharpoonup> string)" where
  "copy_map ks m =
     fold (\<lambda>k c. case m k of Some v \<Rightarrow> c(k \<mapsto> v) | None \<Rightarrow> c) ks Map.empty"

subsection \<open>Get\<close>

text \<open>\<^verbatim>\<open>GetArgs\<close> has the single field \<^verbatim>\<open>Key\<close>, passed as \<open>key\<close>.  The reply
  starts as the zero value the RPC layer allocates.\<close>

definition Get :: "string \<Rightarrow> KVServer \<Rightarrow> GetReply" where
  "Get key kv =
     (if role kv \<noteq> ''primary'' then \<lparr>GetValue = '''', GetErr = ErrNotPrimary\<rparr>
      else case data kv key of
             Some v \<Rightarrow> \<lparr>GetValue = v, GetErr = OK\<rparr>
           | None \<Rightarrow> \<lparr>GetValue = '''', GetErr = ErrNoKey\<rparr>)"

subsection \<open>Put\<close>

text \<open>
  The part of \<^verbatim>\<open>Put\<close> between the two critical sections: with a backup, dial it and,
  when the connection stands, call \<^verbatim>\<open>KVServer.ForwardUpdate\<close>.  Every error is logged
  and ignored.
\<close>

definition Put_forward :: "string \<Rightarrow> PutArgs \<Rightarrow> rpc_result \<Rightarrow> net_action list" where
  "Put_forward backup args res =
     (if backup \<noteq> '''' then
        (case res of
           DialError \<Rightarrow> [Dial backup]
         | CallError \<Rightarrow> [Dial backup, Call_ForwardUpdate backup \<lparr>Key = Key args, Value = Value args\<rparr>]
         | Replied e \<Rightarrow> [Dial backup, Call_ForwardUpdate backup \<lparr>Key = Key args, Value = Value args\<rparr>])
      else [])"

text \<open>
  \<^verbatim>\<open>Put\<close> run without interference between its two critical sections.  The result is
  the reply's \<^verbatim>\<open>Err\<close>, the network actions performed, and the new state.
\<close>

definition Put :: "PutArgs \<Rightarrow> rpc_result \<Rightarrow> KVServer \<Rightarrow> string \<times> net_action list \<times> KVServer" where
  "Put args res kv =
     (if role kv \<noteq> ''primary'' then (ErrNotPrimary, [], kv)
      else if syncing kv then (OK, [], kv\<lparr>pendingQueue := pendingQueue kv @ [args]\<rparr>)
      else
        let backup = Backup (kvView kv) in
        (OK, Put_forward backup args res, kv\<lparr>data := (data kv)(Key args \<mapsto> Value args)\<rparr>))"

subsection \<open>ForwardUpdate and SyncState\<close>

definition ForwardUpdate :: "ForwardUpdateArgs \<Rightarrow> KVServer \<Rightarrow> string \<times> KVServer" where
  "ForwardUpdate args kv =
     (if role kv \<noteq> ''backup'' then (ErrNotPrimary, kv)
      else (OK, kv\<lparr>data := (data kv)(Key args \<mapsto> Value args)\<rparr>))"

text \<open>\<open>ks\<close> is the order in which this run ranges over \<^verbatim>\<open>args.Data\<close>.\<close>

definition SyncState :: "string list \<Rightarrow> SyncStateArgs \<Rightarrow> KVServer \<Rightarrow> string \<times> KVServer" where
  "SyncState ks args kv = (OK, kv\<lparr>data := copy_map ks (Data args)\<rparr>)"

subsection \<open>State transfer\<close>

text \<open>
  The loop of \<^verbatim>\<open>transferState\<close> over the pending puts.  Each queued request goes
  through \<^verbatim>\<open>kv.Put\<close> again, its reply is dropped; \<open>env i\<close> is what the network
  answers to the forward of the \<open>i\<close>-th request.
\<close>

fun drain :: "PutArgs list \<Rightarrow> (nat \<Rightarrow> rpc_result) \<Rightarrow> KVServer \<Rightarrow> net_action list \<times> KVServer" where
  "drain [] env kv = ([], kv)"
| "drain (putArgs # pending) env kv =
     (case Put putArgs (env 0) kv of
        (err, acts, kv') \<Rightarrow>
          (case drain pending (\<lambda>i. env (Suc i)) kv' of
             (acts', kv'') \<Rightarrow> (acts @ acts', kv'')))"

text \<open>
  \<^verbatim>\<open>transferState\<close> has three parts.  The first critical section sets \<^verbatim>\<open>syncing\<close>
  and copies the store (\<open>ks\<close>: the order of the range over \<^verbatim>\<open>kv.data\<close>).
\<close>

definition transferState_begin :: "string list \<Rightarrow> KVServer \<Rightarrow> (string \<rightharpoonup> string) \<times> KVServer" where
  "transferState_begin ks kv = (copy_map ks (data kv), kv\<lparr>syncing := True\<rparr>)"

text \<open>Outside the lock: dial the backup and call \<^verbatim>\<open>KVServer.SyncState\<close>.\<close>

definition transferState_rpc ::
  "string \<Rightarrow> uint64 \<Rightarrow> (string \<rightharpoonup> string) \<Rightarrow> rpc_result \<Rightarrow> net_action list" where
  "transferState_rpc backup viewNumber dataCopy res =
     (case res of
        DialError \<Rightarrow> [Dial backup]
      | CallError \<Rightarrow> [Dial backup, Call_SyncState backup \<lparr>Data = dataCopy, SyncViewNumber = viewNumber\<rparr>]
      | Replied e \<Rightarrow> [Dial backup, Call_SyncState backup \<lparr>Data = dataCopy, SyncViewNumber = viewNumber\<rparr>])"

text \<open>
  The end of \<^verbatim>\<open>transferState\<close>, on the state the server has when the RPC is over.
  Both error paths clear \<^verbatim>\<open>syncing\<close> and return.  After a reply (whose \<^verbatim>\<open>Err\<close> is
  not looked at) \<^verbatim>\<open>syncing\<close> is cleared and a non-empty queue is taken and replayed.
\<close>

definition transferState_end ::
  "rpc_result \<Rightarrow> (nat \<Rightarrow> rpc_result) \<Rightarrow> KVServer \<Rightarrow> net_action list \<times> KVServer" where
  "transferState_end res env kv =
     (case res of
        DialError \<Rightarrow> ([], kv\<lparr>syncing := False\<rparr>)
      | CallError \<Rightarrow> ([], kv\<lparr>syncing := False\<rparr>)
      | Replied e \<Rightarrow>
          let kv1 = kv\<lparr>syncing := False\<rparr> in
          if length (pendingQueue kv1) > 0 then
            let pending = pendingQueue kv1 in
            drain pending env (kv1\<lparr>pendingQueue := []\<rparr>)
          else ([], kv1))"

text \<open>The whole of \<^verbatim>\<open>transferState(backup, viewNumber)\<close>, run without interference.\<close>

definition transferState ::
  "string \<Rightarrow> uint64 \<Rightarrow> string list \<Rightarrow> rpc_result \<Rightarrow> (nat \<Rightarrow> rpc_result) \<Rightarrow> KVServer
     \<Rightarrow> net_action list \<times> KVServer" where
  "transferState backup viewNumber ks res env kv =
     (case transferState_begin ks kv of
        (dataCopy, kv1) \<Rightarrow>
          (case transferState_end res env kv1 of
             (acts, kv2) \<Rightarrow> (transferState_rpc backup viewNumber dataCopy res @ acts, kv2)))"

subsection \<open>View changes at a replica\<close>

text \<open>
  \<^verbatim>\<open>handleViewChange(oldView)\<close> runs on the state that already holds the new view.
  \<open>oldView\<close> is only logged.  The result names the goroutine it starts, if any:
  \<^verbatim>\<open>transferState(backup, viewNumber)\<close>.
\<close>

definition handleViewChange :: "View \<Rightarrow> KVServer \<Rightarrow> (string \<times> uint64) option \<times> KVServer" where
  "handleViewChange oldView kv =
     (let kv1 = kv\<lparr>role :=
                   (if Primary (kvView kv) = me kv then ''primary''
                    else if Backup (kvView kv) = me kv then ''backup''
                    else ''idle'')\<rparr>
      in if role kv1 = ''primary'' then
           (if Backup (kvView kv1) \<noteq> '''' \<and> Backup (kvView kv1) \<noteq> lastBackup kv1 then
              (Some (Backup (kvView kv1), ViewNumber (kvView kv1)),
               kv1\<lparr>lastBackup := Backup (kvView kv1)\<rparr>)
            else if Backup (kvView kv1) = '''' then (None, kv1\<lparr>lastBackup := ''''\<rparr>)
            else (None, kv1))
         else (None, kv1))"

text \<open>\<^verbatim>\<open>ping\<close>: the arguments it sends, and what it does with the answer
  (\<open>None\<close>: the call failed).\<close>

definition ping_args :: "KVServer \<Rightarrow> PingArgs" where
  "ping_args kv = \<lparr>ServerName = me kv, PingViewNumber = ViewNumber (kvView kv)\<rparr>"

definition ping_reply :: "View option \<Rightarrow> KVServer \<Rightarrow> (string \<times> uint64) option \<times> KVServer" where
  "ping_reply reply kv =
     (case reply of
        None \<Rightarrow> (None, kv)
      | Some view \<Rightarrow>
          let oldView = kvView kv; kv1 = kv\<lparr>kvView := view\<rparr> in
          if ViewNumber oldView \<noteq> ViewNumber (kvView kv1) then handleViewChange oldView kv1
          else (None, kv1))"

section \<open>The view service (viewservice package)\<close>

subsection \<open>State\<close>

record ServerInfo =
  Name :: string
  LastPingTime :: time
  Alive :: bool

text \<open>
  The fields of \<^verbatim>\<open>ViewServer\<close> guarded by \<^verbatim>\<open>vs.mu\<close>.  \<^verbatim>\<open>servers\<close> is a Go map: it
  has no order of its own.  \<^verbatim>\<open>rpcCount\<close> is a Go \<^verbatim>\<open>int\<close> that only tests read.
\<close>

record ViewServer =
  rpcCount :: int
  currentView :: View
  servers :: "string \<rightharpoonup> ServerInfo"
  idleServers :: "string list"
  primaryAcked :: bool

text \<open>\<^verbatim>\<open>DeadInterval = 1500 * time.Millisecond\<close>, in nanoseconds.\<close>

definition DeadInterval :: int where
  "DeadInterval = 1500 * 1000000"

definition vs_StartServer :: ViewServer where
  "vs_StartServer =
     \<lparr>rpcCount = 0,
      currentView = \<lparr>ViewNumber = 0, Primary = '''', Backup = ''''\<rparr>,
      servers = Map.empty,
      idleServers = [],
      primaryAcked = True\<rparr>"

subsection \<open>Ping and GetView\<close>

text \<open>\<open>now\<close> is the value of \<^verbatim>\<open>time.Now()\<close>.  The result is \<^verbatim>\<open>reply.View\<close> and the
  new state.\<close>

definition Ping :: "PingArgs \<Rightarrow> time \<Rightarrow> ViewServer \<Rightarrow> View \<times> ViewServer" where
  "Ping args now vs =
     (let vs1 = vs\<lparr>rpcCount := rpcCount vs + 1\<rparr>;
          vs2 =
            (case servers vs1 (ServerName args) of
               Some server \<Rightarrow>
                 vs1\<lparr>servers := (servers vs1)(ServerName args \<mapsto>
                        server\<lparr>LastPingTime := now, Alive := True\<rparr>)\<rparr>
             | None \<Rightarrow>
                 let vs' = vs1\<lparr>servers := (servers vs1)(ServerName args \<mapsto>
                        \<lparr>Name = ServerName args, LastPingTime = now, Alive = True\<rparr>)\<rparr>
                 in if ServerName args \<noteq> Primary (currentView vs')
                       \<and> ServerName args \<noteq> Backup (currentView vs')
                    then vs'\<lparr>idleServers := idleServers vs' @ [ServerName args]\<rparr>
                    else vs');
          vs3 =
            (if ServerName args = Primary (currentView vs2)
                \<and> PingViewNumber args = ViewNumber (currentView vs2)
             then vs2\<lparr>primaryAcked := True\<rparr>
             else vs2)
      in (currentView vs3, vs3))"

definition GetView :: "ViewServer \<Rightarrow> View \<times> ViewServer" where
  "GetView vs = (let vs1 = vs\<lparr>rpcCount := rpcCount vs + 1\<rparr> in (currentView vs1, vs1))"

subsection \<open>The tick: checkFailuresAndPromote\<close>

text \<open>
  The five blocks of \<^verbatim>\<open>checkFailuresAndPromote\<close>, in the order of the source.  The
  local \<^verbatim>\<open>viewChanged\<close> only decides a log line.

  Block 1 marks dead every server whose last ping is older than \<^verbatim>\<open>DeadInterval\<close>.
  Each entry is treated on its own, so the order of the range does not matter.
\<close>

definition markDead :: "time \<Rightarrow> ViewServer \<Rightarrow> ViewServer" where
  "markDead now vs =
     vs\<lparr>servers := (\<lambda>name.
           case servers vs name of
             None \<Rightarrow> None
           | Some server \<Rightarrow>
               if now - LastPingTime server > DeadInterval then
                 (if Alive server then Some (server\<lparr>Alive := False\<rparr>) else Some server)
               else Some server)\<rparr>"

text \<open>Block 2: the primary is dead.\<close>

definition checkPrimary :: "ViewServer \<Rightarrow> ViewServer" where
  "checkPrimary vs =
     (if Primary (currentView vs) \<noteq> '''' then
        (case servers vs (Primary (currentView vs)) of
           Some server \<Rightarrow>
             if \<not> Alive server then
               (if primaryAcked vs \<and> Backup (currentView vs) \<noteq> '''' then
                  (case servers vs (Backup (currentView vs)) of
                     Some backupServer \<Rightarrow>
                       if Alive backupServer then
                         vs\<lparr>currentView :=
                              \<lparr>ViewNumber = ViewNumber (currentView vs) + 1,
                               Primary = Backup (currentView vs),
                               Backup = ''''\<rparr>,
                            primaryAcked := False\<rparr>
                       else vs
                   | None \<Rightarrow> vs)
                else if primaryAcked vs then
                  vs\<lparr>currentView :=
                       \<lparr>ViewNumber = ViewNumber (currentView vs) + 1,
                        Primary = '''',
                        Backup = Backup (currentView vs)\<rparr>,
                     primaryAcked := True\<rparr>
                else vs)
             else vs
         | None \<Rightarrow> vs)
      else vs)"

text \<open>Block 3: the backup is dead.\<close>

definition checkBackup :: "ViewServer \<Rightarrow> ViewServer" where
  "checkBackup vs =
     (if Backup (currentView vs) \<noteq> '''' then
        (case servers vs (Backup (currentView vs)) of
           Some server \<Rightarrow>
             if \<not> Alive server then
               vs\<lparr>currentView :=
                    \<lparr>ViewNumber = ViewNumber (currentView vs) + 1,
                     Primary = Primary (currentView vs),
                     Backup = ''''\<rparr>\<rparr>
             else vs
         | None \<Rightarrow> vs)
      else vs)"

definition removeFromIdle :: "string \<Rightarrow> ViewServer \<Rightarrow> ViewServer" where
  "removeFromIdle serverName vs =
     vs\<lparr>idleServers := filter (\<lambda>name. name \<noteq> serverName) (idleServers vs)\<rparr>"

text \<open>
  Blocks 4 and 5 range over the map \<^verbatim>\<open>vs.servers\<close> and stop at the first entry that
  is alive and is not \<open>other\<close>.  Go leaves the order of a range over a map unspecified
  and varies it from one range to the next; \<open>ord\<close> is the order of this range, a list
  of the map's keys.
\<close>

definition alive_other :: "(string \<rightharpoonup> ServerInfo) \<Rightarrow> string \<Rightarrow> string \<Rightarrow> bool" where
  "alive_other srv other name =
     (case srv name of
        Some server \<Rightarrow> Alive server \<and> name \<noteq> other
      | None \<Rightarrow> False)"

definition range_first :: "string list \<Rightarrow> (string \<rightharpoonup> ServerInfo) \<Rightarrow> string \<Rightarrow> string option" where
  "range_first ord srv other = find (alive_other srv other) ord"

text \<open>Block 4: no primary.\<close>

definition assignPrimary :: "string list \<Rightarrow> ViewServer \<Rightarrow> ViewServer" where
  "assignPrimary ord vs =
     (if Primary (currentView vs) = '''' \<and> primaryAcked vs then
        (case range_first ord (servers vs) (Backup (currentView vs)) of
           Some name \<Rightarrow>
             removeFromIdle name
               (vs\<lparr>currentView :=
                     \<lparr>ViewNumber = ViewNumber (currentView vs) + 1,
                      Primary = name,
                      Backup = Backup (currentView vs)\<rparr>,
                   primaryAcked := False\<rparr>)
         | None \<Rightarrow> vs)
      else vs)"

text \<open>Block 5: a primary and no backup.\<close>

definition assignBackup :: "string list \<Rightarrow> ViewServer \<Rightarrow> ViewServer" where
  "assignBackup ord vs =
     (if Backup (currentView vs) = '''' \<and> Primary (currentView vs) \<noteq> '''' \<and> primaryAcked vs then
        (case range_first ord (servers vs) (Primary (currentView vs)) of
           Some name \<Rightarrow>
             removeFromIdle name
               (vs\<lparr>currentView :=
                     \<lparr>ViewNumber = ViewNumber (currentView vs) + 1,
                      Primary = Primary (currentView vs),
                      Backup = name\<rparr>\<rparr>)
         | None \<Rightarrow> vs)
      else vs)"

text \<open>\<open>ordP\<close> and \<open>ordB\<close> are the orders of the two ranges of this tick.\<close>

definition checkFailuresAndPromote :: "time \<Rightarrow> string list \<Rightarrow> string list \<Rightarrow> ViewServer \<Rightarrow> ViewServer" where
  "checkFailuresAndPromote now ordP ordB vs =
     assignBackup ordB (assignPrimary ordP (checkBackup (checkPrimary (markDead now vs))))"

subsection \<open>Executions of the view service\<close>

text \<open>
  Every handler and the tick hold \<^verbatim>\<open>vs.mu\<close> from start to end, so an execution is a
  sequence of these three events.  A Ping and a GetView send a reply, a tick sends
  nothing.
\<close>

datatype vs_event =
    EvPing PingArgs time
  | EvGetView
  | EvTick time "string list" "string list"

fun vs_step :: "vs_event \<Rightarrow> ViewServer \<Rightarrow> View option \<times> ViewServer" where
  "vs_step (EvPing args now) vs = (case Ping args now vs of (view, vs') \<Rightarrow> (Some view, vs'))"
| "vs_step EvGetView vs = (case GetView vs of (view, vs') \<Rightarrow> (Some view, vs'))"
| "vs_step (EvTick now ordP ordB) vs = (None, checkFailuresAndPromote now ordP ordB vs)"

fun vs_run :: "vs_event list \<Rightarrow> ViewServer \<Rightarrow> ViewServer" where
  "vs_run [] vs = vs"
| "vs_run (ev # evs) vs = vs_run evs (snd (vs_step ev vs))"

text \<open>The views sent in replies during an execution, oldest first.\<close>

fun vs_replies :: "vs_event list \<Rightarrow> ViewServer \<Rightarrow> View list" where
  "vs_replies [] vs = []"
| "vs_replies (ev # evs) vs =
     (case fst (vs_step ev vs) of Some view \<Rightarrow> [view] | None \<Rightarrow> [])
       @ vs_replies evs (snd (vs_step ev vs))"

text \<open>The view numbers a server advertised in its pings during an execution.\<close>

fun pings_of :: "string \<Rightarrow> vs_event list \<Rightarrow> uint64 list" where
  "pings_of name [] = []"
| "pings_of name (EvPing args now # evs) =
     (if ServerName args = name then PingViewNumber args # pings_of name evs
      else pings_of name evs)"
| "pings_of name (ev # evs) = pings_of name evs"

section \<open>Concrete executions\<close>

text \<open>
  Executions used below to run the code on explicit inputs.  Times are nanoseconds
  since the start of the view service; the servers are \<open>A\<close>, \<open>B\<close> and \<open>C\<close>, the
  ticker fires every 500 ms.

  \<open>ack_trace\<close>: \<open>A\<close> becomes primary in view 1 and acknowledges it at 600 ms, its last
  ping.  \<open>B\<close> joins, becomes backup in view 2 and keeps pinging.
\<close>

definition ack_trace :: "vs_event list" where
  "ack_trace =
     [EvPing \<lparr>ServerName = ''A'', PingViewNumber = 0\<rparr> 0,
      EvTick (500 * 1000000) [''A''] [''A''],
      EvPing \<lparr>ServerName = ''A'', PingViewNumber = 1\<rparr> (600 * 1000000),
      EvPing \<lparr>ServerName = ''B'', PingViewNumber = 0\<rparr> (700 * 1000000),
      EvTick (1000 * 1000000) [''A'', ''B''] [''A'', ''B''],
      EvPing \<lparr>ServerName = ''B'', PingViewNumber = 2\<rparr> (1200 * 1000000),
      EvTick (1500 * 1000000) [''A'', ''B''] [''A'', ''B''],
      EvPing \<lparr>ServerName = ''B'', PingViewNumber = 2\<rparr> (1700 * 1000000),
      EvTick (2000 * 1000000) [''A'', ''B''] [''A'', ''B''],
      EvPing \<lparr>ServerName = ''B'', PingViewNumber = 2\<rparr> (2200 * 1000000)]"

text \<open>
  \<open>both_dead_trace\<close>: view 2 has primary \<open>A\<close> and backup \<open>B\<close>, \<open>A\<close> acknowledges view 2
  at 1100 ms, and neither server pings after 1200 ms.
\<close>

definition both_dead_trace :: "vs_event list" where
  "both_dead_trace =
     [EvPing \<lparr>ServerName = ''A'', PingViewNumber = 0\<rparr> 0,
      EvTick (500 * 1000000) [''A''] [''A''],
      EvPing \<lparr>ServerName = ''A'', PingViewNumber = 1\<rparr> (600 * 1000000),
      EvPing \<lparr>ServerName = ''B'', PingViewNumber = 0\<rparr> (700 * 1000000),
      EvTick (1000 * 1000000) [''A'', ''B''] [''A'', ''B''],
      EvPing \<lparr>ServerName = ''A'', PingViewNumber = 2\<rparr> (1100 * 1000000),
      EvPing \<lparr>ServerName = ''B'', PingViewNumber = 2\<rparr> (1200 * 1000000),
      EvTick (1500 * 1000000) [''A'', ''B''] [''A'', ''B''],
      EvTick (2000 * 1000000) [''A'', ''B''] [''A'', ''B''],
      EvTick (2500 * 1000000) [''A'', ''B''] [''A'', ''B'']]"

text \<open>
  \<open>skip_trace\<close>: \<open>A\<close> is primary of view 1, acknowledges it at 600 ms and stops; \<open>C\<close>
  registers at 2100 ms.  A client asks for the view after every event.
\<close>

definition skip_trace :: "vs_event list" where
  "skip_trace =
     [EvGetView,
      EvPing \<lparr>ServerName = ''A'', PingViewNumber = 0\<rparr> 0,
      EvGetView,
      EvTick (500 * 1000000) [''A''] [''A''],
      EvGetView,
      EvPing \<lparr>ServerName = ''A'', PingViewNumber = 1\<rparr> (600 * 1000000),
      EvGetView,
      EvTick (1000 * 1000000) [''A''] [''A''],
      EvGetView,
      EvTick (1500 * 1000000) [''A''] [''A''],
      EvGetView,
      EvTick (2000 * 1000000) [''A''] [''A''],
      EvGetView,
      EvPing \<lparr>ServerName = ''C'', PingViewNumber = 0\<rparr> (2100 * 1000000),
      EvGetView]"

text \<open>\<open>two_idle_trace\<close>: \<open>A\<close> registers first, \<open>B\<close> second, before the first tick.\<close>

definition two_idle_trace :: "vs_event list" where
  "two_idle_trace =
     [EvPing \<lparr>ServerName = ''A'', PingViewNumber = 0\<rparr> 0,
      EvPing \<lparr>ServerName = ''B'', PingViewNumber = 0\<rparr> (100 * 1000000)]"

text \<open>
  \<open>queued_during_transfer\<close>: replica \<open>S1\<close> learns view 1 (it is primary, no backup),
  stores \<open>a\<close>, learns view 2 with the new backup \<open>S2\<close>, enters \<^verbatim>\<open>transferState\<close>, and
  receives a Put of \<open>b\<close> while the snapshot is on its way.
\<close>

definition queued_during_transfer :: KVServer where
  "queued_during_transfer =
     (let kv1 = snd (ping_reply (Some \<lparr>ViewNumber = 1, Primary = ''S1'', Backup = ''''\<rparr>)
                       (kv_StartServer ''S1''));
          kv2 = snd (snd (Put \<lparr>Key = ''a'', Value = ''1''\<rparr> DialError kv1));
          kv3 = snd (ping_reply (Some \<lparr>ViewNumber = 2, Primary = ''S1'', Backup = ''S2''\<rparr>) kv2);
          kv4 = snd (transferState_begin [''a''] kv3);
          kv5 = snd (snd (Put \<lparr>Key = ''b'', Value = ''2''\<rparr> DialError kv4))
      in kv5)"

section \<open>Properties of the key-value handlers\<close>

lemma copy_map_fold:
  "fold (\<lambda>k c. case m k of Some v \<Rightarrow> c(k \<mapsto> v) | None \<Rightarrow> c) ks c0 x =
     (if x \<in> set ks \<and> m x \<noteq> None then m x else c0 x)"
  by (induction ks arbitrary: c0) (auto split: option.splits)

lemma copy_map_all_keys: "set ks = dom m \<Longrightarrow> copy_map ks m = m"
proof (rule ext)
  fix x
  assume keys: "set ks = dom m"
  show "copy_map ks m x = m x"
  proof (cases "m x")
    case None
    then show ?thesis by (simp add: copy_map_def copy_map_fold)
  next
    case (Some v)
    with keys have "x \<in> set ks" by (simp add: domI)
    with Some show ?thesis by (simp add: copy_map_def copy_map_fold)
  qed
qed

text \<open>
  C6.  A Put that arrives while the server is primary and syncing is appended at the
  end of the pending queue and answered OK at once; the store (and every other
  field) is as before and nothing is sent to the backup.
\<close>

theorem Put_while_syncing:
  assumes "role kv = ''primary''" and "syncing kv"
  shows "Put args res kv = (OK, [], kv\<lparr>pendingQueue := pendingQueue kv @ [args]\<rparr>)
       \<and> data (snd (snd (Put args res kv))) = data kv"
  using assms by (simp add: Put_def)

theorem Put_while_syncing_witness:
  "Put \<lparr>Key = ''k2'', Value = ''v2''\<rparr> DialError
     ((kv_StartServer ''S1'')\<lparr>role := ''primary'', syncing := True,
        pendingQueue := [\<lparr>Key = ''k1'', Value = ''v1''\<rparr>]\<rparr>)
   = (OK, [],
      (kv_StartServer ''S1'')\<lparr>role := ''primary'', syncing := True,
        pendingQueue := [\<lparr>Key = ''k1'', Value = ''v1''\<rparr>, \<lparr>Key = ''k2'', Value = ''v2''\<rparr>]\<rparr>)"
  using Put_while_syncing [of "(kv_StartServer ''S1'')\<lparr>role := ''primary'', syncing := True,
        pendingQueue := [\<lparr>Key = ''k1'', Value = ''v1''\<rparr>]\<rparr>" "\<lparr>Key = ''k2'', Value = ''v2''\<rparr>" DialError]
  by (simp add: kv_StartServer_def)

text \<open>
  C7.  A Put at a primary that is not syncing: with a backup in the view, the backup
  is dialled and, once connected, \<^verbatim>\<open>ForwardUpdate(key, value)\<close> is called on it before
  the local write; without a backup nothing is sent.  Whatever the network answers
  (no connection, a failed call, any reply, \<^verbatim>\<open>ErrNotPrimary\<close> included), the store
  gets \<open>key \<mapsto> value\<close>, nothing else changes, and the reply is OK.
\<close>

theorem Put_forwards_then_applies:
  assumes "role kv = ''primary''" and "\<not> syncing kv"
  shows "fst (Put args res kv) = OK
       \<and> snd (snd (Put args res kv)) = kv\<lparr>data := (data kv)(Key args \<mapsto> Value args)\<rparr>
       \<and> fst (snd (Put args res kv)) =
           (if Backup (kvView kv) = '''' then []
            else if res = DialError then [Dial (Backup (kvView kv))]
            else [Dial (Backup (kvView kv)),
                  Call_ForwardUpdate (Backup (kvView kv)) \<lparr>Key = Key args, Value = Value args\<rparr>])"
  using assms by (cases res) (simp_all add: Put_def Put_forward_def Let_def)

theorem Put_forwards_then_applies_witness:
  "fst (Put \<lparr>Key = ''k'', Value = ''v''\<rparr> (Replied ErrNotPrimary)
          ((kv_StartServer ''S1'')\<lparr>role := ''primary'',
             kvView := \<lparr>ViewNumber = 2, Primary = ''S1'', Backup = ''S2''\<rparr>\<rparr>)) = OK
   \<and> data (snd (snd (Put \<lparr>Key = ''k'', Value = ''v''\<rparr> (Replied ErrNotPrimary)
          ((kv_StartServer ''S1'')\<lparr>role := ''primary'',
             kvView := \<lparr>ViewNumber = 2, Primary = ''S1'', Backup = ''S2''\<rparr>\<rparr>)))) ''k'' = Some ''v''
   \<and> fst (snd (Put \<lparr>Key = ''k'', Value = ''v''\<rparr> (Replied ErrNotPrimary)
          ((kv_StartServer ''S1'')\<lparr>role := ''primary'',
             kvView := \<lparr>ViewNumber = 2, Primary = ''S1'', Backup = ''S2''\<rparr>\<rparr>)))
       = [Dial ''S2'', Call_ForwardUpdate ''S2'' \<lparr>Key = ''k'', Value = ''v''\<rparr>]"
  using Put_forwards_then_applies
    [of "(kv_StartServer ''S1'')\<lparr>role := ''primary'',
           kvView := \<lparr>ViewNumber = 2, Primary = ''S1'', Backup = ''S2''\<rparr>\<rparr>"
        "\<lparr>Key = ''k'', Value = ''v''\<rparr>" "Replied ErrNotPrimary"]
  by (simp add: kv_StartServer_def)

text \<open>
  C8.  ForwardUpdate at a backup stores \<open>key \<mapsto> value\<close> and answers OK; delivering
  the same update a second time answers OK and leaves the state as the first
  delivery left it; of two updates of one key the later value stays.  At a server
  that is not backup the answer is \<^verbatim>\<open>ErrNotPrimary\<close> and the state is unchanged.
\<close>

theorem ForwardUpdate_idempotent:
  "(role kv = ''backup'' \<longrightarrow>
      ForwardUpdate args kv = (OK, kv\<lparr>data := (data kv)(Key args \<mapsto> Value args)\<rparr>)
      \<and> ForwardUpdate args (snd (ForwardUpdate args kv)) = (OK, snd (ForwardUpdate args kv))
      \<and> data (snd (ForwardUpdate \<lparr>Key = Key args, Value = v2\<rparr> (snd (ForwardUpdate args kv))))
           (Key args) = Some v2)
   \<and> (role kv \<noteq> ''backup'' \<longrightarrow> ForwardUpdate args kv = (ErrNotPrimary, kv))"
  by (simp add: ForwardUpdate_def)

theorem ForwardUpdate_idempotent_witness:
  "ForwardUpdate \<lparr>Key = ''k'', Value = ''v''\<rparr> ((kv_StartServer ''S2'')\<lparr>role := ''backup''\<rparr>)
     = (OK, (kv_StartServer ''S2'')\<lparr>role := ''backup'', data := [''k'' \<mapsto> ''v'']\<rparr>)
   \<and> ForwardUpdate \<lparr>Key = ''k'', Value = ''v''\<rparr>
        (snd (ForwardUpdate \<lparr>Key = ''k'', Value = ''v''\<rparr> ((kv_StartServer ''S2'')\<lparr>role := ''backup''\<rparr>)))
     = (OK, (kv_StartServer ''S2'')\<lparr>role := ''backup'', data := [''k'' \<mapsto> ''v'']\<rparr>)
   \<and> ForwardUpdate \<lparr>Key = ''k'', Value = ''v''\<rparr> (kv_StartServer ''S3'')
     = (ErrNotPrimary, kv_StartServer ''S3'')"
  using ForwardUpdate_idempotent
      [of "(kv_StartServer ''S2'')\<lparr>role := ''backup''\<rparr>" "\<lparr>Key = ''k'', Value = ''v''\<rparr>" "''v''"]
    ForwardUpdate_idempotent [of "kv_StartServer ''S3''" "\<lparr>Key = ''k'', Value = ''v''\<rparr>" "''v''"]
  by (simp add: kv_StartServer_def ForwardUpdate_def)

text \<open>
  C9.  At a primary that is not syncing, a Put of \<open>(k, v)\<close> followed by a Get of \<open>k\<close>
  answers \<open>v\<close> with status OK (the Put itself answers OK and leaves the role as it
  is).
\<close>

theorem Put_then_Get:
  assumes "role kv = ''primary''" and "\<not> syncing kv"
  shows "fst (Put \<lparr>Key = k, Value = v\<rparr> res kv) = OK
       \<and> role (snd (snd (Put \<lparr>Key = k, Value = v\<rparr> res kv))) = ''primary''
       \<and> Get k (snd (snd (Put \<lparr>Key = k, Value = v\<rparr> res kv))) = \<lparr>GetValue = v, GetErr = OK\<rparr>"
  using assms by (simp add: Put_def Get_def)

theorem Put_then_Get_witness:
  "Get ''a'' (snd (snd (Put \<lparr>Key = ''a'', Value = ''1''\<rparr> DialError
       ((kv_StartServer ''S1'')\<lparr>role := ''primary'',
          kvView := \<lparr>ViewNumber = 1, Primary = ''S1'', Backup = ''''\<rparr>\<rparr>))))
     = \<lparr>GetValue = ''1'', GetErr = OK\<rparr>"
  using Put_then_Get
    [of "(kv_StartServer ''S1'')\<lparr>role := ''primary'',
          kvView := \<lparr>ViewNumber = 1, Primary = ''S1'', Backup = ''''\<rparr>\<rparr>" "''a''" "''1''" DialError]
  by (simp add: kv_StartServer_def)

text \<open>
  C10.  SyncState looks at no field of the server: in every role it replaces the
  whole store by the snapshot it received and answers OK.  (The hypothesis says that
  the range over \<^verbatim>\<open>args.Data\<close> visits the keys of that map.)
\<close>

theorem SyncState_overwrites_in_any_role:
  assumes "set ks = dom (Data args)"
  shows "SyncState ks args kv = (OK, kv\<lparr>data := Data args\<rparr>)"
  using assms by (simp add: SyncState_def copy_map_all_keys)

theorem SyncState_overwrites_in_any_role_witness:
  "SyncState [''x'']
      \<lparr>Data = [''x'' \<mapsto> ''9''], SyncViewNumber = 7\<rparr>
      ((kv_StartServer ''S1'')\<lparr>role := ''primary'', data := [''a'' \<mapsto> ''1'', ''b'' \<mapsto> ''2'']\<rparr>)
   = (OK, (kv_StartServer ''S1'')\<lparr>role := ''primary'', data := [''x'' \<mapsto> ''9'']\<rparr>)"
  using SyncState_overwrites_in_any_role
    [of "[''x'']" "\<lparr>Data = [''x'' \<mapsto> ''9''], SyncViewNumber = 7\<rparr>"
        "(kv_StartServer ''S1'')\<lparr>role := ''primary'', data := [''a'' \<mapsto> ''1'', ''b'' \<mapsto> ''2'']\<rparr>"]
  by (simp add: kv_StartServer_def)

subsection \<open>State transfer\<close>

text \<open>Replaying a queue at a server that is not syncing: the requests are applied in
  queue order when the role is primary and dropped otherwise.\<close>

lemma drain_state:
  "\<not> syncing kv \<Longrightarrow>
   snd (drain pending env kv) =
     kv\<lparr>data := (if role kv = ''primary''
                  then foldl (\<lambda>d p. d(Key p \<mapsto> Value p)) (data kv) pending
                  else data kv)\<rparr>"
proof (induction pending arbitrary: env kv)
  case Nil
  then show ?case by simp
next
  case (Cons p pending)
  show ?case
  proof (cases "role kv = ''primary''")
    case True
    let ?kv' = "kv\<lparr>data := (data kv)(Key p \<mapsto> Value p)\<rparr>"
    have put: "Put p (env 0) kv = (OK, Put_forward (Backup (kvView kv)) p (env 0), ?kv')"
      using True Cons.prems by (simp add: Put_def)
    have "\<not> syncing ?kv'" using Cons.prems by simp
    from Cons.IH [OF this, of "\<lambda>i. env (Suc i)"] put True
    show ?thesis by (simp add: split_beta)
  next
    case False
    then have put: "Put p (env 0) kv = (ErrNotPrimary, [], kv)"
      by (simp add: Put_def)
    from Cons.IH [OF Cons.prems, of "\<lambda>i. env (Suc i)"] put False
    show ?thesis by (simp add: split_beta)
  qed
qed

lemma transferState_end_failure:
  "res = DialError \<or> res = CallError \<Longrightarrow> transferState_end res env kv = ([], kv\<lparr>syncing := False\<rparr>)"
  by (auto simp: transferState_end_def)

lemma transferState_end_success:
  "snd (transferState_end (Replied e) env kv) =
     kv\<lparr>syncing := False, pendingQueue := [],
        data := (if role kv = ''primary''
                 then foldl (\<lambda>d p. d(Key p \<mapsto> Value p)) (data kv) (pendingQueue kv)
                 else data kv)\<rparr>"
proof (cases "pendingQueue kv")
  case Nil
  then show ?thesis by (simp add: transferState_end_def)
next
  case (Cons p ps)
  have "\<not> syncing (kv\<lparr>syncing := False, pendingQueue := []\<rparr>)" by simp
  from drain_state [OF this, of "pendingQueue kv" env] Cons
  show ?thesis by (simp add: transferState_end_def Let_def)
qed

lemma handleViewChange_new_backup:
  assumes "Primary (kvView kv) = me kv" and "Backup (kvView kv) \<noteq> ''''"
  shows "handleViewChange oldView kv =
           (if Backup (kvView kv) \<noteq> lastBackup kv
            then (Some (Backup (kvView kv), ViewNumber (kvView kv)),
                  kv\<lparr>role := ''primary'', lastBackup := Backup (kvView kv)\<rparr>)
            else (None, kv\<lparr>role := ''primary''\<rparr>))"
  using assms by (simp add: handleViewChange_def Let_def)

lemma transferState_end_flags:
  "syncing (snd (transferState_end res env kv)) = False
   \<and> lastBackup (snd (transferState_end res env kv)) = lastBackup kv"
proof (cases res)
  case DialError
  then show ?thesis by (simp add: transferState_end_failure)
next
  case CallError
  then show ?thesis by (simp add: transferState_end_failure)
next
  case (Replied e)
  then show ?thesis by (simp add: transferState_end_success)
qed

lemma transferState_flags:
  "syncing (snd (transferState backup viewNumber ks res env kv)) = False
   \<and> lastBackup (snd (transferState backup viewNumber ks res env kv)) = lastBackup kv"
  using transferState_end_flags [of res env "kv\<lparr>syncing := True\<rparr>"]
  by (simp add: transferState_def transferState_begin_def split_beta)

text \<open>
  C3, as the code has it.  \<^verbatim>\<open>handleViewChange\<close> sets \<^verbatim>\<open>lastBackup\<close> to the view's
  backup when it starts the transfer, and a view that names this same backup starts
  no transfer.  \<^verbatim>\<open>transferState\<close> never writes \<^verbatim>\<open>lastBackup\<close>: when the SyncState RPC
  fails (no connection, or a failed call) it clears \<^verbatim>\<open>syncing\<close> and leaves
  \<^verbatim>\<open>lastBackup\<close> as it is.  After a reply, \<^verbatim>\<open>syncing\<close> is cleared, \<^verbatim>\<open>lastBackup\<close> is
  still as set at the start, and the pending queue is emptied and replayed through
  Put in arrival order (applied to the store when the role is still primary).
\<close>

theorem transferState_outcomes:
  assumes "Primary (kvView kv0) = me kv0" and "Backup (kvView kv0) \<noteq> ''''"
  shows "(Backup (kvView kv0) \<noteq> lastBackup kv0 \<longrightarrow>
            handleViewChange oldView kv0 =
              (Some (Backup (kvView kv0), ViewNumber (kvView kv0)),
               kv0\<lparr>role := ''primary'', lastBackup := Backup (kvView kv0)\<rparr>))
       \<and> (Backup (kvView kv0) = lastBackup kv0 \<longrightarrow> fst (handleViewChange oldView kv0) = None)
       \<and> syncing (snd (transferState_end res env kv)) = False
       \<and> lastBackup (snd (transferState_end res env kv)) = lastBackup kv
       \<and> syncing (snd (transferState backup viewNumber ks res env kv)) = False
       \<and> lastBackup (snd (transferState backup viewNumber ks res env kv)) = lastBackup kv
       \<and> snd (transferState_end (Replied e) env kv) =
            kv\<lparr>syncing := False, pendingQueue := [],
               data := (if role kv = ''primary''
                        then foldl (\<lambda>d p. d(Key p \<mapsto> Value p)) (data kv) (pendingQueue kv)
                        else data kv)\<rparr>"
  using handleViewChange_new_backup [OF assms, of oldView]
    transferState_end_flags [of res env kv]
    transferState_flags [of backup viewNumber ks res env kv]
    transferState_end_success [of e env kv]
  by simp

theorem transferState_outcomes_witness:
  "handleViewChange \<lparr>ViewNumber = 1, Primary = ''S1'', Backup = ''''\<rparr>
      ((kv_StartServer ''S1'')\<lparr>role := ''primary'',
         kvView := \<lparr>ViewNumber = 2, Primary = ''S1'', Backup = ''S2''\<rparr>\<rparr>)
     = (Some (''S2'', 2),
        (kv_StartServer ''S1'')\<lparr>role := ''primary'', lastBackup := ''S2'',
         kvView := \<lparr>ViewNumber = 2, Primary = ''S1'', Backup = ''S2''\<rparr>\<rparr>)
   \<and> syncing (snd (transferState_end DialError (\<lambda>i. Replied OK) queued_during_transfer)) = False
   \<and> lastBackup (snd (transferState_end DialError (\<lambda>i. Replied OK) queued_during_transfer)) = ''S2''
   \<and> pendingQueue (snd (transferState_end (Replied OK) (\<lambda>i. Replied OK) queued_during_transfer)) = []
   \<and> data (snd (transferState_end (Replied OK) (\<lambda>i. Replied OK) queued_during_transfer)) ''b''
       = Some ''2''"
  using transferState_outcomes
    [where kv0 = "(kv_StartServer ''S1'')\<lparr>role := ''primary'',
           kvView := \<lparr>ViewNumber = 2, Primary = ''S1'', Backup = ''S2''\<rparr>\<rparr>"
       and oldView = "\<lparr>ViewNumber = 1, Primary = ''S1'', Backup = ''''\<rparr>"
       and res = DialError and env = "\<lambda>i. Replied OK" and kv = queued_during_transfer
       and e = OK and backup = "''S2''" and viewNumber = 2 and ks = "[''a'']"]
  by (simp add: kv_StartServer_def queued_during_transfer_def ping_reply_def handleViewChange_def
      Put_def transferState_begin_def transferState_end_def Put_forward_def Let_def OK_def)

text \<open>
  C3 as stated fails on \<open>queued_during_transfer\<close>.  \<^verbatim>\<open>lastBackup\<close> already names the
  backup while the transfer is running.  When the call fails, \<^verbatim>\<open>lastBackup\<close> still
  names it, the queued Put of \<open>b\<close> is still in the queue and not in the store, and a
  later view with the same backup starts no transfer.
\<close>

theorem failed_transfer_keeps_lastBackup:
  "syncing queued_during_transfer
   \<and> lastBackup queued_during_transfer = ''S2''
   \<and> syncing (snd (transferState_end CallError (\<lambda>i. DialError) queued_during_transfer)) = False
   \<and> lastBackup (snd (transferState_end CallError (\<lambda>i. DialError) queued_during_transfer)) \<noteq> ''''
   \<and> pendingQueue (snd (transferState_end CallError (\<lambda>i. DialError) queued_during_transfer))
       = [\<lparr>Key = ''b'', Value = ''2''\<rparr>]
   \<and> data (snd (transferState_end CallError (\<lambda>i. DialError) queued_during_transfer)) ''b'' = None
   \<and> fst (ping_reply (Some \<lparr>ViewNumber = 4, Primary = ''S1'', Backup = ''S2''\<rparr>)
        (snd (transferState_end CallError (\<lambda>i. DialError) queued_during_transfer))) = None"
  by (simp add: kv_StartServer_def queued_during_transfer_def ping_reply_def handleViewChange_def
      Put_def transferState_begin_def transferState_end_def Put_forward_def copy_map_def Let_def)

section \<open>Properties of the view service\<close>

lemmas vs_defs =
  vs_StartServer_def Ping_def GetView_def checkFailuresAndPromote_def markDead_def
  checkPrimary_def checkBackup_def assignPrimary_def assignBackup_def range_first_def
  alive_other_def removeFromIdle_def DeadInterval_def Let_def

subsection \<open>What each handler and each block of the tick does to the view\<close>

lemma Ping_view:
  "fst (Ping args now vs) = currentView vs \<and> currentView (snd (Ping args now vs)) = currentView vs"
  by (simp add: Ping_def Let_def split: option.splits)

lemma GetView_view:
  "fst (GetView vs) = currentView vs \<and> currentView (snd (GetView vs)) = currentView vs"
  by (simp add: GetView_def Let_def)

lemma markDead_view:
  "currentView (markDead now vs) = currentView vs \<and> primaryAcked (markDead now vs) = primaryAcked vs"
  by (simp add: markDead_def)

lemma checkPrimary_cases:
  "checkPrimary vs = vs
   \<or> (ViewNumber (currentView (checkPrimary vs)) = ViewNumber (currentView vs) + 1
      \<and> Backup (currentView (checkPrimary vs)) = ''''
      \<and> primaryAcked vs)"
  by (simp add: checkPrimary_def split: option.splits)

lemma checkBackup_cases:
  "checkBackup vs = vs
   \<or> (ViewNumber (currentView (checkBackup vs)) = ViewNumber (currentView vs) + 1
      \<and> Backup (currentView vs) \<noteq> ''''
      \<and> Primary (currentView (checkBackup vs)) = Primary (currentView vs)
      \<and> primaryAcked (checkBackup vs) = primaryAcked vs)"
  by (simp add: checkBackup_def split: option.splits)

lemma assignPrimary_cases:
  "assignPrimary ord vs = vs
   \<or> (ViewNumber (currentView (assignPrimary ord vs)) = ViewNumber (currentView vs) + 1
      \<and> \<not> primaryAcked (assignPrimary ord vs)
      \<and> Primary (currentView vs) = '''')"
  by (simp add: assignPrimary_def removeFromIdle_def split: option.splits)

lemma assignBackup_cases:
  "assignBackup ord vs = vs
   \<or> (ViewNumber (currentView (assignBackup ord vs)) = ViewNumber (currentView vs) + 1
      \<and> primaryAcked vs
      \<and> Primary (currentView (assignBackup ord vs)) = Primary (currentView vs))"
  by (simp add: assignBackup_def removeFromIdle_def split: option.splits)

text \<open>Blocks 2 and 3 together change the view at most once: after block 2 has
  changed it, the view has no backup for block 3 to remove.\<close>

lemma check_blocks:
  "ViewNumber (currentView (checkBackup (checkPrimary vs))) = ViewNumber (currentView vs)
   \<or> ViewNumber (currentView (checkBackup (checkPrimary vs))) = ViewNumber (currentView vs) + 1"
proof -
  consider (same) "checkPrimary vs = vs"
    | (step) "ViewNumber (currentView (checkPrimary vs)) = ViewNumber (currentView vs) + 1"
             "Backup (currentView (checkPrimary vs)) = ''''"
    using checkPrimary_cases [of vs] by blast
  then show ?thesis
  proof cases
    case same
    then show ?thesis using checkBackup_cases [of vs] by auto
  next
    case step
    then have "checkBackup (checkPrimary vs) = checkPrimary vs"
      by (simp add: checkBackup_def)
    with step show ?thesis by simp
  qed
qed

text \<open>Blocks 4 and 5 together change the view at most once: block 4 clears
  \<^verbatim>\<open>primaryAcked\<close>, which block 5 requires.\<close>

lemma assign_blocks:
  "ViewNumber (currentView (assignBackup ordB (assignPrimary ordP vs))) = ViewNumber (currentView vs)
   \<or> ViewNumber (currentView (assignBackup ordB (assignPrimary ordP vs))) = ViewNumber (currentView vs) + 1"
proof -
  consider (same) "assignPrimary ordP vs = vs"
    | (step) "ViewNumber (currentView (assignPrimary ordP vs)) = ViewNumber (currentView vs) + 1"
             "\<not> primaryAcked (assignPrimary ordP vs)"
    using assignPrimary_cases [of ordP vs] by blast
  then show ?thesis
  proof cases
    case same
    then show ?thesis using assignBackup_cases [of ordB vs] by auto
  next
    case step
    then have "assignBackup ordB (assignPrimary ordP vs) = assignPrimary ordP vs"
      by (simp add: assignBackup_def)
    with step show ?thesis by simp
  qed
qed

lemma tick_view_number:
  "ViewNumber (currentView (checkFailuresAndPromote now ordP ordB vs)) - ViewNumber (currentView vs)
     \<in> {0, 1, 2}"
proof -
  let ?a = "markDead now vs"
  let ?b = "checkBackup (checkPrimary ?a)"
  have a: "ViewNumber (currentView ?a) = ViewNumber (currentView vs)"
    by (simp add: markDead_view)
  have b: "ViewNumber (currentView ?b) = ViewNumber (currentView vs)
           \<or> ViewNumber (currentView ?b) = ViewNumber (currentView vs) + 1"
    using check_blocks [of ?a] a by simp
  have c: "ViewNumber (currentView (assignBackup ordB (assignPrimary ordP ?b))) = ViewNumber (currentView ?b)
           \<or> ViewNumber (currentView (assignBackup ordB (assignPrimary ordP ?b))) = ViewNumber (currentView ?b) + 1"
    by (rule assign_blocks)
  from b c show ?thesis
    by (auto simp: checkFailuresAndPromote_def)
qed

lemma step_view_number:
  "ViewNumber (currentView (snd (vs_step ev vs))) - ViewNumber (currentView vs) \<in> {0, 1, 2}"
proof (cases ev)
  case (EvPing args now)
  then show ?thesis using Ping_view [of args now vs] by (simp add: split_beta)
next
  case EvGetView
  then show ?thesis using GetView_view [of vs] by (simp add: split_beta)
next
  case (EvTick now ordP ordB)
  then show ?thesis using tick_view_number [of now ordP ordB vs] by simp
qed

text \<open>Away from the wrap-around of \<^verbatim>\<open>uint64\<close>, a step of at most two is a step upwards.\<close>

lemma word_step_unat:
  fixes v v' :: uint64
  assumes "v' - v \<in> {0, 1, 2}" and "unat v + 2 < 2 ^ 64"
  shows "unat v \<le> unat v' \<and> unat v' \<le> unat v + 2"
proof -
  from assms(1) consider "v' = v" | "v' = v + 1" | "v' = v + 2"
    by (auto simp: algebra_simps)
  then show ?thesis
  proof cases
    case 1
    then show ?thesis by simp
  next
    case 2
    have "unat (v + 1) = unat v + unat (1::uint64)"
      using assms(2) by (subst unat_add_lem [symmetric]) simp
    with 2 show ?thesis by simp
  next
    case 3
    have "unat (v + 2) = unat v + unat (2::uint64)"
      using assms(2) by (subst unat_add_lem [symmetric]) simp
    with 3 show ?thesis by simp
  qed
qed

lemma run_view_number:
  "unat (ViewNumber (currentView vs)) + 2 * length evs < 2 ^ 64 \<Longrightarrow>
   unat (ViewNumber (currentView vs)) \<le> unat (ViewNumber (currentView (vs_run evs vs)))
   \<and> unat (ViewNumber (currentView (vs_run evs vs))) \<le> unat (ViewNumber (currentView vs)) + 2 * length evs"
proof (induction evs arbitrary: vs)
  case Nil
  then show ?case by simp
next
  case (Cons ev evs)
  let ?vs1 = "snd (vs_step ev vs)"
  have s: "unat (ViewNumber (currentView vs)) \<le> unat (ViewNumber (currentView ?vs1))
         \<and> unat (ViewNumber (currentView ?vs1)) \<le> unat (ViewNumber (currentView vs)) + 2"
    using step_view_number [of ev vs] Cons.prems by (intro word_step_unat) auto
  then have "unat (ViewNumber (currentView ?vs1)) + 2 * length evs < 2 ^ 64"
    using Cons.prems by simp
  from Cons.IH [OF this] s show ?case by simp
qed

subsection \<open>View numbers\<close>

text \<open>
  C2, as the code has it.  In every execution that stays away from the wrap-around
  of the 64-bit counter the view number never decreases.  Ping and GetView answer
  with the current view and leave it as it is; a tick sends no reply.  Each of the
  four blocks of the tick that change the view adds exactly 1 to the number, and one
  tick runs all of them under one lock: it advances the number by 0, 1 or 2, so the
  number in between two changes of one tick is never in a reply.
\<close>

theorem view_number_advances:
  assumes "unat (ViewNumber (currentView vs)) + 2 * length evs < 2 ^ 64"
  shows "unat (ViewNumber (currentView vs)) \<le> unat (ViewNumber (currentView (vs_run evs vs)))
       \<and> unat (ViewNumber (currentView (vs_run evs vs)))
           \<le> unat (ViewNumber (currentView vs)) + 2 * length evs
       \<and> fst (Ping args t vs) = currentView vs
       \<and> currentView (snd (Ping args t vs)) = currentView vs
       \<and> fst (GetView vs) = currentView vs
       \<and> currentView (snd (GetView vs)) = currentView vs
       \<and> fst (vs_step (EvTick now ordP ordB) vs) = None
       \<and> (checkPrimary vs = vs
            \<or> ViewNumber (currentView (checkPrimary vs)) = ViewNumber (currentView vs) + 1)
       \<and> (checkBackup vs = vs
            \<or> ViewNumber (currentView (checkBackup vs)) = ViewNumber (currentView vs) + 1)
       \<and> (assignPrimary ordP vs = vs
            \<or> ViewNumber (currentView (assignPrimary ordP vs)) = ViewNumber (currentView vs) + 1)
       \<and> (assignBackup ordB vs = vs
            \<or> ViewNumber (currentView (assignBackup ordB vs)) = ViewNumber (currentView vs) + 1)
       \<and> ViewNumber (currentView (checkFailuresAndPromote now ordP ordB vs))
            - ViewNumber (currentView vs) \<in> {0, 1, 2}"
proof -
  note run = run_view_number [OF assms]
  have blocks:
    "checkPrimary vs = vs
       \<or> ViewNumber (currentView (checkPrimary vs)) = ViewNumber (currentView vs) + 1"
    "checkBackup vs = vs
       \<or> ViewNumber (currentView (checkBackup vs)) = ViewNumber (currentView vs) + 1"
    "assignPrimary ordP vs = vs
       \<or> ViewNumber (currentView (assignPrimary ordP vs)) = ViewNumber (currentView vs) + 1"
    "assignBackup ordB vs = vs
       \<or> ViewNumber (currentView (assignBackup ordB vs)) = ViewNumber (currentView vs) + 1"
    using checkPrimary_cases [of vs] checkBackup_cases [of vs]
      assignPrimary_cases [of ordP vs] assignBackup_cases [of ordB vs]
    by blast+
  have tick: "fst (vs_step (EvTick now ordP ordB) vs) = None" by simp
  show ?thesis
    using run Ping_view [of args t vs] GetView_view [of vs] tick blocks
      tick_view_number [of now ordP ordB vs]
    by blast
qed

theorem view_number_advances_witness:
  "unat (ViewNumber (currentView vs_StartServer))
       + 2 * length (skip_trace @ [EvTick (2500 * 1000000) [''A'', ''C''] [''A'', ''C'']]) < 2 ^ 64
   \<and> unat (ViewNumber (currentView vs_StartServer))
       \<le> unat (ViewNumber (currentView
             (vs_run (skip_trace @ [EvTick (2500 * 1000000) [''A'', ''C''] [''A'', ''C'']])
                vs_StartServer)))
   \<and> fst (GetView vs_StartServer) = currentView vs_StartServer"
proof -
  have h: "unat (ViewNumber (currentView vs_StartServer))
       + 2 * length (skip_trace @ [EvTick (2500 * 1000000) [''A'', ''C''] [''A'', ''C'']]) < 2 ^ 64"
    by (simp add: vs_StartServer_def skip_trace_def)
  show ?thesis
    using h view_number_advances [OF h]
    by blast
qed

text \<open>
  C2 as stated fails on \<open>skip_trace\<close> followed by the tick at 2500 ms.  Before that
  tick the view has number 1; the tick removes the dead primary \<open>A\<close> (number 2) and
  makes \<open>C\<close> primary (number 3).  Although a client asks for the view after every
  event, no reply carries the number 2.
\<close>

theorem skipped_view_number:
  "ViewNumber (currentView (vs_run skip_trace vs_StartServer)) = 1
   \<and> currentView (vs_run (skip_trace @ [EvTick (2500 * 1000000) [''A'', ''C''] [''A'', ''C'']])
        vs_StartServer) = \<lparr>ViewNumber = 3, Primary = ''C'', Backup = ''''\<rparr>
   \<and> map ViewNumber (vs_replies
        (skip_trace @ [EvTick (2500 * 1000000) [''A'', ''C''] [''A'', ''C''], EvGetView]) vs_StartServer)
       = [0, 0, 0, 1, 1, 1, 1, 1, 1, 1, 1, 3]
   \<and> 2 \<notin> set (map ViewNumber (vs_replies
        (skip_trace @ [EvTick (2500 * 1000000) [''A'', ''C''] [''A'', ''C''], EvGetView]) vs_StartServer))"
proof -
  have replies: "map ViewNumber (vs_replies
        (skip_trace @ [EvTick (2500 * 1000000) [''A'', ''C''] [''A'', ''C''], EvGetView]) vs_StartServer)
       = [0, 0, 0, 1, 1, 1, 1, 1, 1, 1, 1, 3]"
    by code_simp
  have before: "ViewNumber (currentView (vs_run skip_trace vs_StartServer)) = 1"
    by code_simp
  have after: "currentView (vs_run (skip_trace @ [EvTick (2500 * 1000000) [''A'', ''C''] [''A'', ''C'']])
        vs_StartServer) = \<lparr>ViewNumber = 3, Primary = ''C'', Backup = ''''\<rparr>"
    by code_simp
  have "2 \<notin> set (map ViewNumber (vs_replies
        (skip_trace @ [EvTick (2500 * 1000000) [''A'', ''C''] [''A'', ''C''], EvGetView]) vs_StartServer))"
    unfolding replies by simp
  with replies before after show ?thesis by blast
qed

subsection \<open>The acknowledgement gate\<close>

text \<open>A tick leaves an unacknowledged primary in place, dead or not; hence a tick
  that replaces a primary found \<^verbatim>\<open>primaryAcked\<close> set.\<close>

lemma unacked_primary_stays:
  assumes "\<not> primaryAcked vs" and "Primary (currentView vs) \<noteq> ''''"
  shows "Primary (currentView (checkFailuresAndPromote now ordP ordB vs)) = Primary (currentView vs)"
proof -
  let ?a = "markDead now vs"
  have a: "\<not> primaryAcked ?a" "Primary (currentView ?a) = Primary (currentView vs)"
    using assms by (simp_all add: markDead_view)
  then have b: "checkPrimary ?a = ?a"
    by (simp add: checkPrimary_def split: option.splits)
  have c: "Primary (currentView (checkBackup ?a)) = Primary (currentView vs)"
    using checkBackup_cases [of ?a] a by auto
  then have d: "assignPrimary ordP (checkBackup ?a) = checkBackup ?a"
    using assms(2) by (simp add: assignPrimary_def)
  have "Primary (currentView (assignBackup ordB (checkBackup ?a))) = Primary (currentView (checkBackup ?a))"
    using assignBackup_cases [of ordB "checkBackup ?a"] by auto
  with b c d show ?thesis by (simp add: checkFailuresAndPromote_def)
qed

lemma primary_change_needs_flag:
  assumes "Primary (currentView vs) \<noteq> ''''"
    and "Primary (currentView (checkFailuresAndPromote now ordP ordB vs)) \<noteq> Primary (currentView vs)"
  shows "primaryAcked vs"
  using assms unacked_primary_stays by blast

text \<open>The flag is set only by a ping of the primary that advertises the number of
  the view current at that moment.\<close>

lemma flag_set_by_ping:
  assumes "\<not> primaryAcked vs" and "primaryAcked (snd (Ping args now vs))"
  shows "ServerName args = Primary (currentView vs)
       \<and> PingViewNumber args = ViewNumber (currentView vs)"
  using assms by (simp add: Ping_def Let_def split: option.splits if_splits)

text \<open>Blocks 3 and 5 change the view and its number and leave the flag as it is.\<close>

lemma backup_blocks_keep_flag:
  "primaryAcked (checkBackup vs) = primaryAcked vs
   \<and> primaryAcked (assignBackup ord vs) = primaryAcked vs"
  by (simp add: checkBackup_def assignBackup_def removeFromIdle_def split: option.splits)

text \<open>
  C1.  The execution \<open>ack_trace\<close> ends in view 2 with primary \<open>A\<close> and backup \<open>B\<close>.
  The only pings of \<open>A\<close> advertised the numbers 0 and 1: \<open>A\<close> never acknowledged view
  2.  \<^verbatim>\<open>primaryAcked\<close> is nevertheless set (block 5 made view 2 and left the flag of
  view 1), and the tick at 2500 ms, which finds \<open>A\<close> dead, publishes view 3 with
  primary \<open>B\<close>.
\<close>

theorem promotion_without_ack_of_current_view:
  "currentView (vs_run ack_trace vs_StartServer) = \<lparr>ViewNumber = 2, Primary = ''A'', Backup = ''B''\<rparr>
   \<and> primaryAcked (vs_run ack_trace vs_StartServer)
   \<and> pings_of ''A'' ack_trace = [0, 1]
   \<and> currentView (checkFailuresAndPromote (2500 * 1000000) [''A'', ''B''] [''A'', ''B'']
        (vs_run ack_trace vs_StartServer)) = \<lparr>ViewNumber = 3, Primary = ''B'', Backup = ''''\<rparr>"
  by code_simp

subsection \<open>A dead primary\<close>

text \<open>A dead, acknowledged primary of a view without backup is removed: the next
  view is \<open>(number + 1, no primary, no backup)\<close> and \<^verbatim>\<open>primaryAcked\<close> is set.\<close>

lemma dead_primary_without_backup_removed:
  assumes "Primary (currentView vs) \<noteq> ''''"
    and "servers vs (Primary (currentView vs)) = Some server" and "\<not> Alive server"
    and "primaryAcked vs" and "Backup (currentView vs) = ''''"
  shows "checkBackup (checkPrimary vs) =
           vs\<lparr>currentView := \<lparr>ViewNumber = ViewNumber (currentView vs) + 1,
                              Primary = '''', Backup = ''''\<rparr>,
              primaryAcked := True\<rparr>"
  using assms by (simp add: checkPrimary_def checkBackup_def)

text \<open>With a backup that is listed and dead, block 2 does nothing and block 3
  removes the backup: the dead primary stays.\<close>

lemma dead_primary_with_dead_backup_stays:
  assumes "Primary (currentView vs) \<noteq> ''''"
    and "servers vs (Primary (currentView vs)) = Some server" and "\<not> Alive server"
    and "primaryAcked vs" and "Backup (currentView vs) \<noteq> ''''"
    and "servers vs (Backup (currentView vs)) = Some backupServer" and "\<not> Alive backupServer"
  shows "checkBackup (checkPrimary vs) =
           vs\<lparr>currentView := \<lparr>ViewNumber = ViewNumber (currentView vs) + 1,
                              Primary = Primary (currentView vs), Backup = ''''\<rparr>\<rparr>"
  using assms by (simp add: checkPrimary_def checkBackup_def)

text \<open>
  C4.  The execution \<open>both_dead_trace\<close> ends in view 2 with primary \<open>A\<close> and backup
  \<open>B\<close>, acknowledged by \<open>A\<close>.  At the tick of 3000 ms both are dead.  Blocks 2 and 3
  lead to view 3 with the dead \<open>A\<close> still primary, and so does the whole tick.
\<close>

theorem dead_backup_keeps_dead_primary:
  "currentView (vs_run both_dead_trace vs_StartServer) = \<lparr>ViewNumber = 2, Primary = ''A'', Backup = ''B''\<rparr>
   \<and> primaryAcked (vs_run both_dead_trace vs_StartServer)
   \<and> pings_of ''A'' both_dead_trace = [0, 1, 2]
   \<and> map_option Alive (servers (markDead (3000 * 1000000) (vs_run both_dead_trace vs_StartServer)) ''A'')
       = Some False
   \<and> map_option Alive (servers (markDead (3000 * 1000000) (vs_run both_dead_trace vs_StartServer)) ''B'')
       = Some False
   \<and> currentView (checkBackup (checkPrimary (markDead (3000 * 1000000)
        (vs_run both_dead_trace vs_StartServer))))
       = \<lparr>ViewNumber = 3, Primary = ''A'', Backup = ''''\<rparr>
   \<and> currentView (checkFailuresAndPromote (3000 * 1000000) [''A'', ''B''] [''A'', ''B'']
        (vs_run both_dead_trace vs_StartServer)) = \<lparr>ViewNumber = 3, Primary = ''A'', Backup = ''''\<rparr>
   \<and> primaryAcked (checkFailuresAndPromote (3000 * 1000000) [''A'', ''B''] [''A'', ''B'']
        (vs_run both_dead_trace vs_StartServer))"
  by code_simp

subsection \<open>Choosing a primary\<close>

lemma find_first:
  "find P xs = Some x \<Longrightarrow>
     P x \<and> (\<exists>before after. xs = before @ x # after \<and> (\<forall>y \<in> set before. \<not> P y))"
proof (induction xs)
  case Nil
  then show ?case by simp
next
  case (Cons a xs)
  show ?case
  proof (cases "P a")
    case True
    with Cons.prems have "x = a" by simp
    with True have "P x \<and> a # xs = [] @ x # xs \<and> (\<forall>y \<in> set []. \<not> P y)" by simp
    then show ?thesis by blast
  next
    case False
    with Cons.prems have "find P xs = Some x" by simp
    from Cons.IH [OF this] obtain before after
      where px: "P x" and xs: "xs = before @ x # after" and none: "\<forall>y \<in> set before. \<not> P y"
      by blast
    from xs none False
    have "a # xs = (a # before) @ x # after \<and> (\<forall>y \<in> set (a # before). \<not> P y)" by simp
    with px show ?thesis by blast
  qed
qed

text \<open>
  C5, as the code has it.  When the view has no primary and \<^verbatim>\<open>primaryAcked\<close> is set,
  block 4 takes the first entry, in the order in which this run's range over the
  map visits the entries, that is alive and is not the view's backup: it becomes
  primary of the view with the next number and \<^verbatim>\<open>primaryAcked\<close> is cleared.  Without
  such an entry nothing changes.
\<close>

theorem assignPrimary_takes_first_in_range:
  assumes "Primary (currentView vs) = ''''" and "primaryAcked vs"
  shows "case range_first ord (servers vs) (Backup (currentView vs)) of
           None \<Rightarrow> assignPrimary ord vs = vs
         | Some name \<Rightarrow>
             currentView (assignPrimary ord vs) =
               \<lparr>ViewNumber = ViewNumber (currentView vs) + 1, Primary = name,
                Backup = Backup (currentView vs)\<rparr>
             \<and> primaryAcked (assignPrimary ord vs) = False
             \<and> alive_other (servers vs) (Backup (currentView vs)) name
             \<and> (\<exists>before after. ord = before @ name # after
                   \<and> (\<forall>n \<in> set before.
                         \<not> alive_other (servers vs) (Backup (currentView vs)) n))"
proof (cases "range_first ord (servers vs) (Backup (currentView vs))")
  case None
  with assms show ?thesis by (simp add: assignPrimary_def)
next
  case (Some name)
  then have "find (alive_other (servers vs) (Backup (currentView vs))) ord = Some name"
    by (simp add: range_first_def)
  from find_first [OF this] Some assms show ?thesis
    by (simp add: assignPrimary_def removeFromIdle_def)
qed

theorem assignPrimary_takes_first_in_range_witness:
  "currentView (assignPrimary [''B'', ''A''] (vs_run two_idle_trace vs_StartServer))
     = \<lparr>ViewNumber = 1, Primary = ''B'', Backup = ''''\<rparr>
   \<and> primaryAcked (assignPrimary [''B'', ''A''] (vs_run two_idle_trace vs_StartServer)) = False
   \<and> assignPrimary [] vs_StartServer = vs_StartServer"
  using assignPrimary_takes_first_in_range [of "vs_run two_idle_trace vs_StartServer" "[''B'', ''A'']"]
    assignPrimary_takes_first_in_range [of vs_StartServer "[]"]
  by (simp add: two_idle_trace_def vs_defs)

text \<open>
  C5 as stated fails after \<open>two_idle_trace\<close>: \<open>A\<close> registered before \<open>B\<close> (the idle
  list shows it) and both are alive.  A tick whose range visits \<open>A\<close> first makes \<open>A\<close>
  primary, a tick whose range visits \<open>B\<close> first makes \<open>B\<close> primary.
\<close>

theorem range_order_decides_primary:
  "idleServers (vs_run two_idle_trace vs_StartServer) = [''A'', ''B'']
   \<and> Primary (currentView (checkFailuresAndPromote (500 * 1000000) [''A'', ''B''] [''A'', ''B'']
        (vs_run two_idle_trace vs_StartServer))) = ''A''
   \<and> Primary (currentView (checkFailuresAndPromote (500 * 1000000) [''B'', ''A''] [''A'', ''B'']
        (vs_run two_idle_trace vs_StartServer))) = ''B''"
  by code_simp

end
